theory Spec2Isabelle
  imports Complex_Main "HOL-Library.AList" "HOL-Library.Multiset"
begin



section \<open>Python values, errors and containers\<close>

text \<open>
  Exceptions of the Python source are values: a computation returns \<open>py_error + 'a\<close>,
  with \<open>Inl\<close> for a raised exception. Every constructor stands for a subclass of
  Python's \<open>Exception\<close>; \<open>ValidationError\<close> is pydantic's, raised when a model is built
  from a value of the wrong type; \<open>BackendError\<close> is whatever a remote backend call
  raises (an HTTP error, a timeout, a malformed body), with its message.
\<close>

datatype py_error =
  StopIteration | IndexError | KeyError | ValueError | ValidationError | BackendError string

definition bind_result :: "py_error + 'a \<Rightarrow> ('a \<Rightarrow> py_error + 'b) \<Rightarrow> py_error + 'b" where
  "bind_result m f = (case m of Inl e \<Rightarrow> Inl e | Inr v \<Rightarrow> f v)"

text \<open>
  A \<open>dict\<close> keeps insertion order, so it is an association list with distinct keys:
  \<open>d[k] = v\<close> is \<open>AList.update k v d\<close> (overwrite in place, else append), \<open>d[k]\<close> raises
  \<open>KeyError\<close> on a missing key, \<open>d.get(k, default)\<close> does not.
\<close>

definition dict_getitem :: "('k \<times> 'v) list \<Rightarrow> 'k \<Rightarrow> py_error + 'v" where
  "dict_getitem d k = (case map_of d k of None \<Rightarrow> Inl KeyError | Some v \<Rightarrow> Inr v)"

definition dict_get :: "('k \<times> 'v) list \<Rightarrow> 'k \<Rightarrow> 'v \<Rightarrow> 'v" where
  "dict_get d k dflt = (case map_of d k of None \<Rightarrow> dflt | Some v \<Rightarrow> v)"

definition py_index :: "'a list \<Rightarrow> nat \<Rightarrow> py_error + 'a" where
  "py_index xs i = (if i < length xs then Inr (xs ! i) else Inl IndexError)"

definition py_next_iter :: "'a list \<Rightarrow> py_error + 'a" where
  "py_next_iter xs = (case xs of [] \<Rightarrow> Inl StopIteration | x # _ \<Rightarrow> Inr x)"

text \<open>
  \<open>max(iterable, key=f)\<close>: the key is computed once per element, the running best is
  replaced only by a strictly greater key (so the first maximal element wins), an
  exception of the key function propagates, and an empty iterable raises \<open>ValueError\<close>.
\<close>

fun max_loop :: "('a \<Rightarrow> py_error + nat) \<Rightarrow> 'a \<Rightarrow> nat \<Rightarrow> 'a list \<Rightarrow> py_error + 'a" where
  "max_loop key best best_key [] = Inr best"
| "max_loop key best best_key (x # xs) =
     (case key x of
        Inl e \<Rightarrow> Inl e
      | Inr k \<Rightarrow> if best_key < k then max_loop key x k xs else max_loop key best best_key xs)"

definition py_max_key :: "('a \<Rightarrow> py_error + nat) \<Rightarrow> 'a list \<Rightarrow> py_error + 'a" where
  "py_max_key key xs =
     (case xs of
        [] \<Rightarrow> Inl ValueError
      | x # rest \<Rightarrow> (case key x of Inl e \<Rightarrow> Inl e | Inr k \<Rightarrow> max_loop key x k rest))"

text \<open>
  \<open>sorted(items, key=lambda x: x[1], reverse=True)\<close>: a stable sort on the second
  component; with \<open>reverse=True\<close> elements of equal key keep their original order,
  which CPython gets by reversing, sorting stably and reversing again.
\<close>

definition py_sorted_desc :: "('a \<times> nat) list \<Rightarrow> ('a \<times> nat) list" where
  "py_sorted_desc items = rev (sort_key snd (rev items))"

text \<open>
  A text that the program only passes on, joins, measures or slices is a character
  list, one character for one code point. The reply of the generation backend is
  looked at code point by code point, by methods whose result depends on the Unicode
  class of each one, so it is a list of code points; \<open>ascii\<close> gives the code points of
  a literal.
  \<^item> \<open>str.strip()\<close> removes leading and trailing whitespace; \<open>is_space\<close> is the set of
    code points that CPython counts as whitespace.
  \<^item> \<open>str.replace(c, "")\<close> with a one-character \<open>c\<close> removes every occurrence of it.
  \<^item> \<open>str.lower()\<close> on a reply of ASCII code points lowers the letters A to Z. On a
    reply that holds a code point beyond ASCII it follows the case mapping of the
    Unicode database, which is a parameter \<open>unicode_lower\<close> of the model.
\<close>

type_synonym code_points = "nat list"

definition ascii :: "string \<Rightarrow> code_points" where
  "ascii s = map of_char s"

definition is_space :: "nat \<Rightarrow> bool" where
  "is_space c \<longleftrightarrow>
     c \<in> {0x09..0x0D} \<union> {0x1C..0x20} \<union> {0x85, 0xA0, 0x1680} \<union> {0x2000..0x200A}
         \<union> {0x2028, 0x2029, 0x202F, 0x205F, 0x3000}"

definition strip :: "code_points \<Rightarrow> code_points" where
  "strip s = rev (dropWhile is_space (rev (dropWhile is_space s)))"

definition lower_ascii :: "nat \<Rightarrow> nat" where
  "lower_ascii c = (if 0x41 \<le> c \<and> c \<le> 0x5A then c + 0x20 else c)"

definition lower :: "(code_points \<Rightarrow> code_points) \<Rightarrow> code_points \<Rightarrow> code_points" where
  "lower unicode_lower s =
     (if list_all (\<lambda>c. c < 0x80) s then map lower_ascii s else unicode_lower s)"

definition remove_char :: "nat \<Rightarrow> code_points \<Rightarrow> code_points" where
  "remove_char c s = filter (\<lambda>x. x \<noteq> c) s"

text \<open>
  A Python float is a double. A float literal of the source is written as the real
  number it names. A product of floats is rounded, so it is computed on doubles given
  as a mantissa and a binary exponent, \<open>valof\<close> being the value: \<open>round_to_double\<close>
  keeps 53 significant bits, rounding to the nearest value and a tie to the even
  mantissa; \<open>float_of_nat\<close> is the conversion of an \<open>int\<close> operand; \<open>float_mul\<close> is the
  product; \<open>double_0_3\<close> is the double of the literal \<open>0.3\<close>. Only non-negative doubles
  occur. The exponent is not bounded: a match count would have to exceed
  \<open>10 ^ 308\<close> to leave the range of a double.
\<close>

type_synonym double = "nat \<times> int"

definition valof :: "double \<Rightarrow> real" where
  "valof d = (if 0 \<le> snd d then real (fst d) * 2 ^ nat (snd d)
              else real (fst d) / 2 ^ nat (- snd d))"

fun bitlen :: "nat \<Rightarrow> nat" where
  "bitlen n = (if n = 0 then 0 else Suc (bitlen (n div 2)))"

declare bitlen.simps [simp del]

definition round_to_double :: "double \<Rightarrow> double" where
  "round_to_double d =
     (let n = bitlen (fst d) in
      if n \<le> 53 then d
      else let s = n - 53; q = fst d div 2 ^ s; r = fst d mod 2 ^ s; half = 2 ^ (s - 1)
           in (if r < half \<or> (r = half \<and> even q) then q else q + 1, snd d + int s))"

definition float_of_nat :: "nat \<Rightarrow> double" where
  "float_of_nat n = round_to_double (n, 0)"

definition float_mul :: "double \<Rightarrow> double \<Rightarrow> double" where
  "float_mul a b = round_to_double (fst a * fst b, snd a + snd b)"

definition double_0_3 :: double where
  "double_0_3 = (5404319552844595, - 54)"

section \<open>The command router (core/router.py)\<close>

subsection \<open>Agent types, intent patterns and priorities\<close>

datatype AgentType = FILE | MAIL | KEY | WORKFLOW | SECURITY | CHAT | CODE | SEARCH

fun agent_value :: "AgentType \<Rightarrow> string" where
  "agent_value FILE = ''file''"
| "agent_value MAIL = ''mail''"
| "agent_value KEY = ''key''"
| "agent_value WORKFLOW = ''workflow''"
| "agent_value SECURITY = ''security''"
| "agent_value CHAT = ''chat''"
| "agent_value CODE = ''code''"
| "agent_value SEARCH = ''search''"

text \<open>
  \<open>AgentType\<close> mixes \<open>str\<close> into the enum, so \<open>if force_agent:\<close> and \<open>if llm_result:\<close>
  test \<open>None\<close> and then the truth value of the member's string, which is true for a
  non-empty string.
\<close>

definition truthy :: "AgentType option \<Rightarrow> bool" where
  "truthy x = (case x of None \<Rightarrow> False | Some a \<Rightarrow> agent_value a \<noteq> [])"

text \<open>
  The compiled regular expressions belong to Python's \<open>re\<close> module. A pattern is named
  by its category and its position in the category's list; what the regex engine finds
  is a parameter \<open>findall\<close> of the model, the number of matches that
  \<open>pattern.findall(text)\<close> returns. \<open>INTENT_PATTERNS\<close> keeps the table's definition
  order and the number of patterns of each category.
\<close>

datatype pattern = Pattern AgentType nat

definition INTENT_PATTERNS :: "(AgentType \<times> pattern list) list" where
  "INTENT_PATTERNS =
     [(FILE, [Pattern FILE 0, Pattern FILE 1, Pattern FILE 2]),
      (MAIL, [Pattern MAIL 0, Pattern MAIL 1, Pattern MAIL 2]),
      (KEY, [Pattern KEY 0, Pattern KEY 1, Pattern KEY 2]),
      (WORKFLOW, [Pattern WORKFLOW 0, Pattern WORKFLOW 1, Pattern WORKFLOW 2]),
      (SECURITY, [Pattern SECURITY 0, Pattern SECURITY 1, Pattern SECURITY 2]),
      (CODE, [Pattern CODE 0, Pattern CODE 1, Pattern CODE 2, Pattern CODE 3]),
      (SEARCH, [Pattern SEARCH 0, Pattern SEARCH 1, Pattern SEARCH 2]),
      (CHAT, [Pattern CHAT 0, Pattern CHAT 1])]"

definition AGENT_PRIORITIES :: "(AgentType \<times> nat) list" where
  "AGENT_PRIORITIES =
     [(CODE, 10), (FILE, 9), (MAIL, 8), (KEY, 8),
      (WORKFLOW, 7), (SECURITY, 7), (SEARCH, 5), (CHAT, 1)]"

subsection \<open>Pattern scoring\<close>

type_synonym score_map = "(AgentType \<times> nat) list"

definition category_score :: "(pattern \<Rightarrow> string \<Rightarrow> nat) \<Rightarrow> pattern list \<Rightarrow> string \<Rightarrow> nat" where
  "category_score findall patterns text =
     fold (\<lambda>pattern score. score + findall pattern text) patterns 0"

definition pattern_match :: "(pattern \<Rightarrow> string \<Rightarrow> nat) \<Rightarrow> string \<Rightarrow> score_map" where
  "pattern_match findall text =
     fold (\<lambda>(agent_type, patterns) scores.
             let score = category_score findall patterns text
             in if score > 0 then AList.update agent_type score scores else scores)
          INTENT_PATTERNS []"

subsection \<open>Conflict resolution\<close>

definition resolve_conflicts :: "score_map \<Rightarrow> py_error + AgentType" where
  "resolve_conflicts scores =
     (if scores = [] then Inr CHAT
      else
        let weighted_scores =
              map (\<lambda>(agent, score). (agent, score * dict_get AGENT_PRIORITIES agent 1)) scores
        in py_max_key (\<lambda>x. dict_getitem weighted_scores x) (map fst weighted_scores))"

subsection \<open>The fallback classifier\<close>

definition newline :: string where
  "newline = [CHR 0x0A]"

definition agent_descriptions :: string where
  "agent_descriptions =
     newline @ ''Available agents:'' @ newline
     @ ''- file: File and folder operations (read, write, create, delete, list files)'' @ newline
     @ ''- mail: Email operations (send, compose, manage inbox)'' @ newline
     @ ''- key: API key and credential management (generate, rotate, revoke keys)'' @ newline
     @ ''- workflow: Workflow automation and n8n triggers'' @ newline
     @ ''- security: Permission and access control'' @ newline
     @ ''- code: Code generation, review, and debugging'' @ newline
     @ ''- search: Document search and information retrieval'' @ newline
     @ ''- chat: General conversation and Q&A'' @ newline"

definition classify_prompt :: "string \<Rightarrow> string" where
  "classify_prompt text =
     ''Classify the following user request into one of the available agents.'' @ newline
     @ ''Reply with ONLY the agent name (lowercase, one word).'' @ newline
     @ newline
     @ agent_descriptions @ newline
     @ newline
     @ ''User request: '' @ text @ newline
     @ newline
     @ ''Agent:''"

definition agent_map :: "(code_points \<times> AgentType) list" where
  "agent_map =
     [(ascii ''file'', FILE), (ascii ''mail'', MAIL), (ascii ''email'', MAIL),
      (ascii ''key'', KEY), (ascii ''workflow'', WORKFLOW), (ascii ''security'', SECURITY),
      (ascii ''code'', CODE), (ascii ''search'', SEARCH), (ascii ''chat'', CHAT)]"

definition normalize_reply :: "(code_points \<Rightarrow> code_points) \<Rightarrow> code_points \<Rightarrow> code_points" where
  "normalize_reply unicode_lower response =
     remove_char (of_char CHR '' '')
       (remove_char (of_char CHR '':'') (lower unicode_lower (strip response)))"

text \<open>
  \<open>generate\<close> is the outcome of \<open>llm.generate(prompt, temperature=0.1, max_tokens=20)\<close>:
  the reply, as code points, or the exception the call raises once its retries are used up. The body of
  the \<open>try\<close> is \<open>llm_classify_body\<close>; \<open>except Exception\<close> turns every exception of the
  body into \<open>None\<close>. The router is built with its LLM client, so \<open>_get_llm\<close> hands that
  client back. The \<open>context\<close> argument of \<open>_llm_classify\<close> and of \<open>route\<close> is never
  read and is left out.
\<close>

definition llm_classify_body :: "(code_points \<Rightarrow> code_points)
    \<Rightarrow> (string \<Rightarrow> py_error + code_points) \<Rightarrow> string \<Rightarrow> py_error + AgentType option" where
  "llm_classify_body unicode_lower generate text =
     bind_result (generate (classify_prompt text))
       (\<lambda>response. Inr (map_of agent_map (normalize_reply unicode_lower response)))"

definition llm_classify :: "(code_points \<Rightarrow> code_points)
    \<Rightarrow> (string \<Rightarrow> py_error + code_points) \<Rightarrow> string \<Rightarrow> py_error + AgentType option" where
  "llm_classify unicode_lower generate text =
     (case llm_classify_body unicode_lower generate text of
        Inl e \<Rightarrow> Inr None
      | Inr result \<Rightarrow> Inr result)"

subsection \<open>Routing\<close>

text \<open>
  The routing metadata: \<open>method\<close>, the score map (absent on the forced branch) and
  \<open>confidence\<close>. Confidence is a Python float: the literals are written as such, and
  the product \<open>scores[agent] * 0.3\<close> is the double product of the converted count and
  the double of \<open>0.3\<close>.
\<close>

record metadata =
  meta_method :: string
  meta_scores :: "score_map option"
  meta_confidence :: real

definition route_scored :: "(pattern \<Rightarrow> string \<Rightarrow> nat) \<Rightarrow> (code_points \<Rightarrow> code_points)
    \<Rightarrow> (string \<Rightarrow> py_error + code_points) \<Rightarrow> string
    \<Rightarrow> py_error + (AgentType \<times> metadata)" where
  "route_scored findall unicode_lower generate text =
     (let scores = pattern_match findall text in
      if scores = [] then
        bind_result (llm_classify unicode_lower generate text)
          (\<lambda>llm_result.
             case (if truthy llm_result then llm_result else None) of
               Some agent \<Rightarrow> Inr (agent, \<lparr>meta_method = ''llm'', meta_scores = Some scores,
                                          meta_confidence = 0.8\<rparr>)
             | None \<Rightarrow> Inr (CHAT, \<lparr>meta_method = ''default'', meta_scores = Some scores,
                                    meta_confidence = 0.5\<rparr>))
      else if length scores = 1 then
        bind_result (py_next_iter (map fst scores))
          (\<lambda>agent. bind_result (dict_getitem scores agent)
             (\<lambda>hits. Inr (agent, \<lparr>meta_method = ''pattern'', meta_scores = Some scores,
                                   meta_confidence =
                                     min (valof (float_mul (float_of_nat hits) double_0_3)) 1.0\<rparr>)))
      else
        let sorted_scores = py_sorted_desc scores in
        bind_result (py_index sorted_scores 0)
          (\<lambda>top. bind_result (if length sorted_scores > 1
                               then bind_result (py_index sorted_scores 1) (\<lambda>second. Inr (snd second))
                               else Inr 0)
             (\<lambda>second_score.
                if snd top > second_score * 2
                then Inr (fst top, \<lparr>meta_method = ''pattern'', meta_scores = Some scores,
                                    meta_confidence = 0.9\<rparr>)
                else bind_result (resolve_conflicts scores)
                       (\<lambda>agent. Inr (agent, \<lparr>meta_method = ''priority_weighted'',
                                              meta_scores = Some scores,
                                              meta_confidence = 0.7\<rparr>)))))"

definition route :: "(pattern \<Rightarrow> string \<Rightarrow> nat) \<Rightarrow> (code_points \<Rightarrow> code_points)
    \<Rightarrow> (string \<Rightarrow> py_error + code_points) \<Rightarrow> string
    \<Rightarrow> AgentType option \<Rightarrow> py_error + (AgentType \<times> metadata)" where
  "route findall unicode_lower generate text force_agent =
     (case (if truthy force_agent then force_agent else None) of
        Some forced \<Rightarrow> Inr (forced, \<lparr>meta_method = ''forced'', meta_scores = None,
                                      meta_confidence = 1.0\<rparr>)
      | None \<Rightarrow> route_scored findall unicode_lower generate text)"


subsection \<open>Notions used to state the routing properties\<close>

text \<open>
  \<open>score_table\<close> is the score map written as one pass over a table; \<open>table_position\<close>
  is the place of a category in the definition order of \<open>INTENT_PATTERNS\<close>;
  \<open>priority\<close> is \<open>AGENT_PRIORITIES.get(agent, 1)\<close>; \<open>weighted_score\<close> is the raw
  score of a category times its priority, the value \<open>_resolve_conflicts\<close> maximises.
\<close>

definition score_table :: "(pattern \<Rightarrow> string \<Rightarrow> nat) \<Rightarrow> string \<Rightarrow> (AgentType \<times> pattern list) list \<Rightarrow> score_map" where
  "score_table findall text tbl =
     filter (\<lambda>(a, s). 0 < s) (map (\<lambda>(a, ps). (a, category_score findall ps text)) tbl)"

definition table_position :: "AgentType \<Rightarrow> nat" where
  "table_position a = length (takeWhile (\<lambda>k. k \<noteq> a) (map fst INTENT_PATTERNS))"

definition priority :: "AgentType \<Rightarrow> nat" where
  "priority agent = dict_get AGENT_PRIORITIES agent 1"

definition weighted_score :: "score_map \<Rightarrow> AgentType \<Rightarrow> nat" where
  "weighted_score scores agent = dict_get scores agent 0 * priority agent"

section \<open>The RAG pipeline (core/rag.py)\<close>

subsection \<open>Values, points and the external capabilities\<close>

text \<open>
  Payload and metadata values are strings or integers. A point identifier stands for
  the UUID string that \<open>str(uuid.uuid4())\<close> yields.
\<close>

datatype pyval = PyStr string | PyInt int

type_synonym payload = "(string \<times> pyval) list"

type_synonym uuid = nat

record point =
  point_id :: uuid
  point_vector :: "real list"
  point_payload :: payload

record hit =
  hit_id :: uuid
  hit_payload :: "payload option"
  hit_score :: real

text \<open>
  What the pipeline calls outside this repository is a parameter of the model:
  \<^item> \<open>split_text\<close>: \<open>RecursiveCharacterTextSplitter.split_text\<close> with the configured
    chunk size and overlap;
  \<^item> \<open>embed\<close>: the outcome of \<open>llm.embed(texts)\<close>, the vectors or the exception raised;
  \<^item> \<open>llm_generate\<close>: the outcome of \<open>llm.generate(prompt)\<close>;
  \<^item> \<open>uuid4\<close>: the identifier that the n-th call of \<open>uuid.uuid4()\<close> draws;
  \<^item> \<open>store_fault\<close>: \<open>None\<close> when the vector store answers, else the exception that
    every request to it raises;
  \<^item> \<open>similarity_search\<close>: the ranking of \<open>qdrant.search\<close> over the stored points, for
    a query vector, filter conditions, a limit and a score threshold;
  \<^item> \<open>rag_top_k\<close>, \<open>rag_score_threshold\<close>: the settings of the same names.
\<close>

record backend =
  split_text :: "string \<Rightarrow> string list"
  embed :: "string list \<Rightarrow> py_error + real list list"
  llm_generate :: "string \<Rightarrow> py_error + string"
  uuid4 :: "nat \<Rightarrow> uuid"
  store_fault :: "py_error option"
  similarity_search :: "point list \<Rightarrow> real list \<Rightarrow> payload \<Rightarrow> nat \<Rightarrow> real \<Rightarrow> hit list"
  rag_top_k :: nat
  rag_score_threshold :: real

text \<open>
  The state that the pipeline and its backends carry from call to call: whether
  \<open>self._qdrant\<close> is set, the points of the configured collection, the arguments of the
  calls made to the embedding backend so far, and the number of UUIDs drawn so far.
\<close>

record rag_state =
  qdrant_client :: bool
  collection :: "point list"
  embed_calls :: "string list list"
  uuid_draws :: nat

subsection \<open>The vector store\<close>

text \<open>
  \<open>upsert\<close> overwrites the point of the same identifier or adds the point; \<open>scroll\<close>
  returns one page, at most \<open>limit\<close> of the points that pass the filter, and the offset
  of the next page when there is one; \<open>delete\<close> removes the points whose identifier is
  listed. Points are kept in insertion order, which is also the order of a scroll.
\<close>

definition upsert_point :: "point \<Rightarrow> point list \<Rightarrow> point list" where
  "upsert_point p ps =
     (if point_id p \<in> point_id ` set ps
      then map (\<lambda>q. if point_id q = point_id p then p else q) ps
      else ps @ [p])"

definition upsert :: "point list \<Rightarrow> point list \<Rightarrow> point list" where
  "upsert ps new_points = fold upsert_point new_points ps"

definition scroll :: "point list \<Rightarrow> (point \<Rightarrow> bool) \<Rightarrow> nat \<Rightarrow> point list \<times> uuid option" where
  "scroll ps scroll_filter limit =
     (let matching = filter scroll_filter ps
      in (take limit matching,
          if limit < length matching then Some (point_id (matching ! limit)) else None))"

definition delete_points :: "point list \<Rightarrow> uuid list \<Rightarrow> point list" where
  "delete_points ps ids = filter (\<lambda>p. point_id p \<notin> set ids) ps"

definition matches_doc_id :: "string \<Rightarrow> point \<Rightarrow> bool" where
  "matches_doc_id doc_id p \<longleftrightarrow> map_of (point_payload p) ''doc_id'' = Some (PyStr doc_id)"

text \<open>
  \<open>_get_qdrant\<close>: the client is created and stored on first use, then the collection
  is looked up and created if missing, which is a request to the store and can raise;
  the client stays set when it does. The pipeline is built with its LLM client, so
  \<open>_get_llm\<close> hands that client back.
\<close>

definition get_qdrant :: "backend \<Rightarrow> rag_state \<Rightarrow> (py_error + unit) \<times> rag_state" where
  "get_qdrant env s =
     (if qdrant_client s then (Inr (), s)
      else (case store_fault env of
              Some e \<Rightarrow> (Inl e, s\<lparr>qdrant_client := True\<rparr>)
            | None \<Rightarrow> (Inr (), s\<lparr>qdrant_client := True\<rparr>)))"

subsection \<open>Indexing\<close>

definition make_payload :: "string \<Rightarrow> string \<Rightarrow> nat \<Rightarrow> nat \<Rightarrow> payload option \<Rightarrow> payload" where
  "make_payload doc_id chunk i total_chunks metadata =
     fold (\<lambda>(k, v). AList.update k v) (case metadata of None \<Rightarrow> [] | Some m \<Rightarrow> m)
       [(''doc_id'', PyStr doc_id), (''content'', PyStr chunk),
        (''chunk_index'', PyInt (int i)), (''total_chunks'', PyInt (int total_chunks))]"

definition make_points :: "backend \<Rightarrow> nat \<Rightarrow> string \<Rightarrow> string list \<Rightarrow> real list list
    \<Rightarrow> payload option \<Rightarrow> point list" where
  "make_points env draws doc_id chunks embeddings metadata =
     map (\<lambda>(i, (chunk, embedding)).
            \<lparr>point_id = uuid4 env (draws + i), point_vector = embedding,
             point_payload = make_payload doc_id chunk i (length chunks) metadata\<rparr>)
         (List.enumerate 0 (zip chunks embeddings))"

definition index_document :: "backend \<Rightarrow> string \<Rightarrow> string \<Rightarrow> payload option \<Rightarrow> rag_state
    \<Rightarrow> (py_error + nat) \<times> rag_state" where
  "index_document env doc_id content metadata s0 =
     (case get_qdrant env s0 of
        (Inl e, s) \<Rightarrow> (Inl e, s)
      | (Inr _, s) \<Rightarrow>
          let chunks = split_text env content in
          if chunks = [] then (Inr 0, s)
          else
            let s1 = s\<lparr>embed_calls := embed_calls s @ [chunks]\<rparr> in
            (case embed env chunks of
               Inl e \<Rightarrow> (Inl e, s1)
             | Inr embeddings \<Rightarrow>
                 let points = make_points env (uuid_draws s1) doc_id chunks embeddings metadata;
                     s2 = s1\<lparr>uuid_draws := uuid_draws s1 + length points\<rparr>
                 in (case store_fault env of
                       Some e \<Rightarrow> (Inl e, s2)
                     | None \<Rightarrow> (Inr (length chunks),
                                 s2\<lparr>collection := upsert (collection s2) points\<rparr>))))"

subsection \<open>Deletion\<close>

definition delete_document :: "backend \<Rightarrow> string \<Rightarrow> rag_state \<Rightarrow> (py_error + nat) \<times> rag_state" where
  "delete_document env doc_id s0 =
     (case get_qdrant env s0 of
        (Inl e, s) \<Rightarrow> (Inl e, s)
      | (Inr _, s) \<Rightarrow>
          (case store_fault env of
             Some e \<Rightarrow> (Inl e, s)
           | None \<Rightarrow>
               let (points, next_page) = scroll (collection s) (matches_doc_id doc_id) 1000;
                   point_ids = map point_id points
               in if point_ids \<noteq> []
                  then (Inr (length point_ids),
                        s\<lparr>collection := delete_points (collection s) point_ids\<rparr>)
                  else (Inr (length point_ids), s)))"

subsection \<open>Search and query\<close>

record Document =
  document_id :: uuid
  document_content :: string
  document_metadata :: payload
  document_score :: "real option"

record Citation =
  citation_id :: uuid
  citation_source :: pyval
  citation_content :: string
  citation_score :: "real option"

text \<open>
  \<open>Document\<close> is a pydantic model with \<open>content: str\<close>: building it from a payload whose
  \<open>content\<close> is not a string raises \<open>ValidationError\<close>. The loop over the hits stops at
  the first exception.
\<close>

definition to_document :: "hit \<Rightarrow> py_error + Document" where
  "to_document h =
     (let payload = (case hit_payload h of None \<Rightarrow> [] | Some p \<Rightarrow> p)
      in case dict_get payload ''content'' (PyStr '''') of
           PyStr c \<Rightarrow>
             Inr \<lparr>document_id = hit_id h,
                  document_content = c,
                  document_metadata = filter (\<lambda>(k, v). k \<noteq> ''content'') payload,
                  document_score = Some (hit_score h)\<rparr>
         | PyInt _ \<Rightarrow> Inl ValidationError)"

fun map_result :: "('a \<Rightarrow> py_error + 'b) \<Rightarrow> 'a list \<Rightarrow> py_error + 'b list" where
  "map_result f [] = Inr []"
| "map_result f (x # xs) =
     bind_result (f x) (\<lambda>y. bind_result (map_result f xs) (\<lambda>ys. Inr (y # ys)))"

definition search :: "backend \<Rightarrow> string \<Rightarrow> nat option \<Rightarrow> real option \<Rightarrow> string option
    \<Rightarrow> payload option \<Rightarrow> rag_state \<Rightarrow> (py_error + Document list) \<times> rag_state" where
  "search env query top_k score_threshold doc_id metadata_filter s0 =
     (case get_qdrant env s0 of
        (Inl e, s) \<Rightarrow> (Inl e, s)
      | (Inr _, s) \<Rightarrow>
          let k = (case top_k of None \<Rightarrow> rag_top_k env
                   | Some n \<Rightarrow> if n = 0 then rag_top_k env else n);
              threshold = (case score_threshold of None \<Rightarrow> rag_score_threshold env
                           | Some t \<Rightarrow> if t = 0 then rag_score_threshold env else t);
              s1 = s\<lparr>embed_calls := embed_calls s @ [[query]]\<rparr>
          in (case bind_result (embed env [query]) (\<lambda>embeddings. py_index embeddings 0) of
                Inl e \<Rightarrow> (Inl e, s1)
              | Inr query_embedding \<Rightarrow>
                  let filter_conditions =
                        (case doc_id of None \<Rightarrow> []
                         | Some d \<Rightarrow> if d = [] then [] else [(''doc_id'', PyStr d)])
                        @ (case metadata_filter of None \<Rightarrow> [] | Some m \<Rightarrow> m)
                  in (case store_fault env of
                        Some e \<Rightarrow> (Inl e, s1)
                      | None \<Rightarrow>
                          (map_result to_document
                             (similarity_search env (collection s1) query_embedding
                                filter_conditions k threshold),
                           s1))))"

text \<open>\<open>str(n)\<close> for a natural number, and the text an f-string puts for a value.\<close>

fun str_nat :: "nat \<Rightarrow> string" where
  "str_nat n =
     (if n < 10 then [''0123456789'' ! n]
      else str_nat (n div 10) @ [''0123456789'' ! (n mod 10)])"

declare str_nat.simps [simp del]

definition str_pyval :: "pyval \<Rightarrow> string" where
  "str_pyval v =
     (case v of
        PyStr s \<Rightarrow> s
      | PyInt i \<Rightarrow> if i < 0 then ''-'' @ str_nat (nat (- i)) else str_nat (nat i))"

definition join :: "string \<Rightarrow> string list \<Rightarrow> string" where
  "join sep parts = (case parts of [] \<Rightarrow> [] | p # ps \<Rightarrow> p @ concat (map (\<lambda>q. sep @ q) ps))"

definition format_context :: "Document list \<Rightarrow> string" where
  "format_context documents =
     (if documents = [] then ''''
      else join (newline @ newline @ ''---'' @ newline @ newline)
             (map (\<lambda>(i, doc).
                     ''[Source '' @ str_nat i @ '': ''
                     @ str_pyval (dict_get (document_metadata doc) ''doc_id'' (PyStr ''unknown''))
                     @ '']'' @ newline @ document_content doc)
                  (List.enumerate 1 documents)))"

definition build_rag_prompt :: "string \<Rightarrow> string \<Rightarrow> string option \<Rightarrow> string" where
  "build_rag_prompt query context system_instructions =
     join (newline @ newline)
       ((case system_instructions of None \<Rightarrow> [] | Some i \<Rightarrow> if i = [] then [] else [i])
        @ (if context \<noteq> []
           then [''Use the following context to answer the question. ''
                 @ ''If the context doesn'' @ [CHR 0x27] @ ''t contain relevant information, ''
                 @ ''say so and answer based on your general knowledge.'' @ newline @ newline
                 @ ''Context:'' @ newline @ context]
           else [])
        @ [''Question: '' @ query])"

definition make_citation :: "Document \<Rightarrow> Citation" where
  "make_citation doc =
     \<lparr>citation_id = document_id doc,
      citation_source = dict_get (document_metadata doc) ''doc_id'' (PyStr ''unknown''),
      citation_content =
        (if length (document_content doc) > 200
         then take 200 (document_content doc) @ ''...''
         else document_content doc),
      citation_score = document_score doc\<rparr>"

definition query :: "backend \<Rightarrow> string \<Rightarrow> string option \<Rightarrow> nat option \<Rightarrow> bool \<Rightarrow> rag_state
    \<Rightarrow> (py_error + string \<times> Citation list) \<times> rag_state" where
  "query env query_text system_instructions top_k include_citations s0 =
     (case search env query_text top_k None None None s0 of
        (Inl e, s) \<Rightarrow> (Inl e, s)
      | (Inr documents, s) \<Rightarrow>
          let context = format_context documents;
              prompt = build_rag_prompt query_text context system_instructions
          in (case llm_generate env prompt of
                Inl e \<Rightarrow> (Inl e, s)
              | Inr response \<Rightarrow>
                  (Inr (response, if include_citations then map make_citation documents else []),
                   s)))"

subsection \<open>A backend and states to run the pipeline on\<close>

text \<open>
  A backend that answers every request: the splitter cuts after every character, every
  text embeds to the same one-dimensional vector, the generation call replies
  \<open>answer\<close>, the n-th UUID is \<open>n\<close>, and a search returns the first points of the
  collection, up to the limit, each with score 0.9. \<open>down_backend\<close> is the same with a
  vector store that refuses every request.
\<close>

definition demo_backend :: backend where
  "demo_backend =
     \<lparr>split_text = map (\<lambda>c. [c]),
      embed = (\<lambda>texts. Inr (map (\<lambda>t. [1]) texts)),
      llm_generate = (\<lambda>prompt. Inr ''answer''),
      uuid4 = (\<lambda>n. n),
      store_fault = None,
      similarity_search = (\<lambda>ps v conditions k threshold.
         map (\<lambda>p. \<lparr>hit_id = point_id p, hit_payload = Some (point_payload p), hit_score = 0.9\<rparr>)
             (take k ps)),
      rag_top_k = 5,
      rag_score_threshold = 0.7\<rparr>"

definition down_backend :: backend where
  "down_backend = demo_backend\<lparr>store_fault := Some (BackendError ''connection refused'')\<rparr>"

definition empty_state :: rag_state where
  "empty_state = \<lparr>qdrant_client = False, collection = [], embed_calls = [], uuid_draws = 0\<rparr>"

definition long_chunk_state :: rag_state where
  "long_chunk_state =
     \<lparr>qdrant_client = True,
      collection = [\<lparr>point_id = 0, point_vector = [1],
                     point_payload = make_payload ''manual'' (replicate 201 CHR ''a'') 0 1 None\<rparr>],
      embed_calls = [], uuid_draws = 1\<rparr>"

definition indexed_1001 :: rag_state where
  "indexed_1001 =
     snd (index_document demo_backend ''manual'' (replicate 1001 CHR ''a'') None empty_state)"


section \<open>Properties of the command router\<close>

subsection \<open>The score map\<close>

lemma update_fresh: "k \<notin> fst ` set al \<Longrightarrow> AList.update k v al = al @ [(k, v)]"
  by (induction al) auto

lemma fold_score_table:
  "distinct (map fst tbl) \<Longrightarrow> fst ` set acc \<inter> fst ` set tbl = {} \<Longrightarrow>
   fold (\<lambda>(agent_type, patterns) scores.
             let score = category_score findall patterns text
             in if score > 0 then AList.update agent_type score scores else scores) tbl acc
   = acc @ score_table findall text tbl"
proof (induction tbl arbitrary: acc)
  case Nil
  then show ?case by (simp add: score_table_def)
next
  case (Cons p tbl)
  obtain a ps where p: "p = (a, ps)" by (cases p)
  show ?case
  proof (cases "0 < category_score findall ps text")
    case True
    have fresh: "a \<notin> fst ` set acc" using Cons.prems(2) p by auto
    have disj: "fst ` set (acc @ [(a, category_score findall ps text)]) \<inter> fst ` set tbl = {}"
      using Cons.prems p by auto
    show ?thesis
      using Cons.IH[OF _ disj] Cons.prems(1) True p
      by (simp add: update_fresh[OF fresh] score_table_def)
  next
    case False
    have disj: "fst ` set acc \<inter> fst ` set tbl = {}" using Cons.prems p by auto
    show ?thesis
      using Cons.IH[OF _ disj] Cons.prems(1) False p
      by (simp add: score_table_def)
  qed
qed

lemma distinct_INTENT: "distinct (map fst INTENT_PATTERNS)"
  by (simp add: INTENT_PATTERNS_def)

lemma pattern_match_table: "pattern_match findall text = score_table findall text INTENT_PATTERNS"
  unfolding pattern_match_def
  using fold_score_table[OF distinct_INTENT, of "[]" findall "text"] by simp


lemma score_table_keys:
  "map fst (score_table findall text tbl) =
     filter (\<lambda>a. a \<in> fst ` set (score_table findall text tbl)) (map fst tbl)"
  if "distinct (map fst tbl)"
  using that
proof (induction tbl)
  case Nil
  then show ?case by (simp add: score_table_def)
next
  case (Cons p tbl)
  obtain a ps where p: "p = (a, ps)" by (cases p)
  have notin: "a \<notin> fst ` set (score_table findall text tbl)"
    using Cons.prems p by (force simp: score_table_def)
  have IH: "map fst (score_table findall text tbl) =
     filter (\<lambda>a. a \<in> fst ` set (score_table findall text tbl)) (map fst tbl)"
    using Cons by simp
  have sub: "fst ` set (score_table findall text tbl) \<subseteq> set (map fst tbl)"
    by (force simp: score_table_def)
  have eq: "filter (\<lambda>x. x = a \<or> x \<in> fst ` set (score_table findall text tbl)) (map fst tbl)
          = filter (\<lambda>x. x \<in> fst ` set (score_table findall text tbl)) (map fst tbl)"
    using Cons.prems p by (intro filter_cong) auto
  show ?case
  proof (cases "0 < category_score findall ps text")
    case True
    have "score_table findall text (p # tbl) = (a, category_score findall ps text) # score_table findall text tbl"
      using True p by (simp add: score_table_def)
    then show ?thesis using IH eq p by simp
  next
    case False
    have "score_table findall text (p # tbl) = score_table findall text tbl"
      using False p by (simp add: score_table_def)
    then show ?thesis using IH notin p by simp
  qed
qed

lemma pattern_match_distinct: "distinct (map fst (pattern_match findall text))"
  unfolding pattern_match_table
  by (subst score_table_keys[OF distinct_INTENT]) (simp add: distinct_INTENT)

lemma pattern_match_positive: "(a, s) \<in> set (pattern_match findall text) \<Longrightarrow> 0 < s"
  unfolding pattern_match_table by (auto simp: score_table_def)

lemma table_sorted: "sorted_wrt (\<lambda>x y. table_position x < table_position y) (map fst INTENT_PATTERNS)"
  by (simp add: table_position_def INTENT_PATTERNS_def)

lemma pattern_match_order:
  "sorted_wrt (\<lambda>x y. table_position x < table_position y) (map fst (pattern_match findall text))"
  unfolding pattern_match_table
  by (subst score_table_keys[OF distinct_INTENT]) (rule sorted_wrt_filter[OF table_sorted])


lemma max_loop_first_max:
  assumes "\<forall>x\<in>set xs. key x = Inr (f x)"
    and "\<forall>y\<in>set pre0. f y < f best"
    and "\<forall>y\<in>set mid. f y \<le> f best"
  shows "\<exists>r pre post. max_loop key best (f best) xs = Inr r
           \<and> pre0 @ best # mid @ xs = pre @ r # post
           \<and> (\<forall>y\<in>set pre. f y < f r) \<and> (\<forall>y\<in>set post. f y \<le> f r)"
  using assms
proof (induction xs arbitrary: pre0 best mid)
  case Nil
  then show ?case by auto
next
  case (Cons x xs)
  have kx: "key x = Inr (f x)" using Cons.prems(1) by simp
  have rest: "\<forall>y\<in>set xs. key y = Inr (f y)" using Cons.prems(1) by simp
  show ?case
  proof (cases "f best < f x")
    case True
    have p: "\<forall>y\<in>set (pre0 @ best # mid). f y < f x"
      using Cons.prems(2,3) True by fastforce
    have m: "\<forall>y\<in>set ([]::'a list). f y \<le> f x" by simp
    from Cons.IH[OF rest p m] show ?thesis using kx True by simp
  next
    case False
    have m: "\<forall>y\<in>set (mid @ [x]). f y \<le> f best"
      using Cons.prems(3) False by auto
    from Cons.IH[OF rest Cons.prems(2) m] show ?thesis using kx False by simp
  qed
qed

lemma py_max_key_first_max:
  assumes "xs \<noteq> []" and "\<forall>x\<in>set xs. key x = Inr (f x)"
  shows "\<exists>r pre post. py_max_key key xs = Inr r \<and> xs = pre @ r # post
           \<and> (\<forall>y\<in>set pre. f y < f r) \<and> (\<forall>y\<in>set post. f y \<le> f r)"
proof -
  obtain x rest where xs: "xs = x # rest" using assms(1) by (cases xs) auto
  have r: "\<forall>y\<in>set rest. key y = Inr (f y)" and kx: "key x = Inr (f x)"
    using assms(2) xs by auto
  from max_loop_first_max[OF r, of "[]" x "[]"]
  show ?thesis using kx xs by (simp add: py_max_key_def)
qed

lemma map_of_weighted:
  "map_of (map (\<lambda>(agent, score). (agent, score * dict_get AGENT_PRIORITIES agent 1)) scores) a
     = map_option (\<lambda>s. s * priority a) (map_of scores a)"
  by (induction scores) (auto simp: priority_def)

lemma resolve_conflicts_first_max:
  assumes "scores \<noteq> []"
  shows "\<exists>r pre post. resolve_conflicts scores = Inr r \<and> map fst scores = pre @ r # post
           \<and> (\<forall>y\<in>set pre. weighted_score scores y < weighted_score scores r)
           \<and> (\<forall>y\<in>set post. weighted_score scores y \<le> weighted_score scores r)"
proof -
  let ?w = "map (\<lambda>(agent, score). (agent, score * dict_get AGENT_PRIORITIES agent 1)) scores"
  have keys: "map fst ?w = map fst scores" by (induction scores) auto
  have key: "\<forall>x\<in>set (map fst scores). dict_getitem ?w x = Inr (weighted_score scores x)"
  proof
    fix x assume "x \<in> set (map fst scores)"
    then obtain s where "map_of scores x = Some s"
      by (metis map_of_eq_None_iff not_Some_eq set_map)
    then have "map_of ?w x = Some (s * priority x)" and "dict_get scores x 0 = s"
      by (simp only: map_of_weighted option.map, simp add: dict_get_def)
    then show "dict_getitem ?w x = Inr (weighted_score scores x)"
      by (simp add: dict_getitem_def weighted_score_def)
  qed
  have ne: "map fst scores \<noteq> []" using assms by simp
  have "resolve_conflicts scores = py_max_key (\<lambda>x. dict_getitem ?w x) (map fst ?w)"
    unfolding resolve_conflicts_def Let_def using assms by (rule if_not_P)
  then have "resolve_conflicts scores = py_max_key (dict_getitem ?w) (map fst scores)"
    unfolding keys .
  with py_max_key_first_max[OF ne key] show ?thesis by presburger
qed


subsection \<open>Doubles\<close>

lemma valof_nonneg: "0 \<le> valof d"
  by (simp add: valof_def)

lemma double_0_3_nearest:
  "2 ^ 52 \<le> fst double_0_3 \<and> fst double_0_3 < 2 ^ 53
   \<and> \<bar>valof double_0_3 - 3 / 10\<bar> < 1 / 2 ^ 55"
  by (simp add: double_0_3_def valof_def)

lemma bitlen_bound: "n < 2 ^ k \<Longrightarrow> bitlen n \<le> k"
proof (induction k arbitrary: n)
  case 0
  then show ?case by (simp add: bitlen.simps)
next
  case (Suc k)
  have "n div 2 < 2 ^ k" using Suc.prems by simp
  from Suc.IH[OF this] show ?case by (subst bitlen.simps) simp
qed

lemma float_of_nat_exact: "n < 2 ^ 53 \<Longrightarrow> float_of_nat n = (n, 0)"
  using bitlen_bound[of n 53] by (simp add: float_of_nat_def round_to_double_def)

lemma single_match_products:
  "float_mul (float_of_nat 1) double_0_3 = (5404319552844595, - 54)"
  "float_mul (float_of_nat 2) double_0_3 = (5404319552844595, - 53)"
  "float_mul (float_of_nat 3) double_0_3 = (8106479329266892, - 53)"
  "float_mul (float_of_nat 4) double_0_3 = (5404319552844595, - 52)"
  by (simp_all add: float_mul_def float_of_nat_def round_to_double_def double_0_3_def
      bitlen.simps Let_def)

text \<open>
  Rounding keeps the exponent of the 53 leading bits and moves the value by at most half
  a unit of the last kept bit.
\<close>

lemma round_to_double_nearest:
  assumes "53 < bitlen (fst d)"
  shows "snd (round_to_double d) = snd d + int (bitlen (fst d) - 53)"
    and "2 * \<bar>int (fst (round_to_double d)) * 2 ^ (bitlen (fst d) - 53) - int (fst d)\<bar>
           \<le> 2 ^ (bitlen (fst d) - 53)"
proof -
  define s where "s = bitlen (fst d) - 53"
  define q where "q = fst d div 2 ^ s"
  define r where "r = fst d mod 2 ^ s"
  define half :: nat where "half = 2 ^ (s - 1)"
  have s1: "1 \<le> s" using assms by (simp add: s_def)
  have p: "(2::nat) ^ s = 2 * half"
    using s1 by (cases s) (simp_all add: half_def)
  have m: "fst d = q * 2 ^ s + r" unfolding q_def r_def by (rule div_mult_mod_eq[symmetric])
  have rl: "r < 2 * half" unfolding p[symmetric] by (simp add: r_def)
  have rd: "round_to_double d =
        (if r < half \<or> (r = half \<and> even q) then q else q + 1, snd d + int s)"
    using assms by (simp add: round_to_double_def Let_def s_def q_def r_def half_def)
  show "snd (round_to_double d) = snd d + int (bitlen (fst d) - 53)"
    by (simp add: rd s_def)
  have mi: "int (fst d) = int q * (2 * int half) + int r"
    using m p by simp
  have pi: "(2::int) ^ s = 2 * int half"
    using p by (metis of_nat_numeral of_nat_power of_nat_mult)
  have "2 * \<bar>int (fst (round_to_double d)) * 2 ^ s - int (fst d)\<bar> \<le> 2 ^ s"
    unfolding rd pi mi using rl by (auto simp: algebra_simps abs_if)
  then show "2 * \<bar>int (fst (round_to_double d)) * 2 ^ (bitlen (fst d) - 53) - int (fst d)\<bar>
           \<le> 2 ^ (bitlen (fst d) - 53)"
    by (simp add: s_def)
qed

subsection \<open>The branches of route\<close>

lemma truthy_Some: "truthy (Some a)"
  by (cases a) (simp_all add: truthy_def)

lemma truthy_None: "\<not> truthy None"
  by (simp add: truthy_def)

lemma route_unforced: "route findall unicode_lower generate text None = route_scored findall unicode_lower generate text"
  by (simp add: route_def truthy_None)

lemma route_forced:
  "route findall unicode_lower generate text (Some a) =
     Inr (a, \<lparr>meta_method = ''forced'', meta_scores = None, meta_confidence = 1\<rparr>)"
  by (simp add: route_def truthy_Some)

lemma llm_classify_total:
  "llm_classify unicode_lower generate text =
     Inr (case generate (classify_prompt text) of
            Inl e \<Rightarrow> None
          | Inr response \<Rightarrow> map_of agent_map (normalize_reply unicode_lower response))"
  by (simp add: llm_classify_def llm_classify_body_def bind_result_def split: sum.splits)

lemma route_scored_empty:
  assumes "pattern_match findall text = []"
  shows "route_scored findall unicode_lower generate text =
     (case llm_classify unicode_lower generate text of
        Inr (Some agent) \<Rightarrow> Inr (agent, \<lparr>meta_method = ''llm'', meta_scores = Some [],
                                         meta_confidence = 0.8\<rparr>)
      | _ \<Rightarrow> Inr (CHAT, \<lparr>meta_method = ''default'', meta_scores = Some [],
                          meta_confidence = 0.5\<rparr>))"
  using assms
  by (simp add: route_scored_def Let_def bind_result_def llm_classify_total truthy_Some truthy_None
      split: sum.splits option.splits)

lemma route_scored_single:
  assumes "pattern_match findall text = [(agent, h)]"
  shows "route_scored findall unicode_lower generate text =
     Inr (agent, \<lparr>meta_method = ''pattern'', meta_scores = Some [(agent, h)],
                  meta_confidence = min (valof (float_mul (float_of_nat h) double_0_3)) 1\<rparr>)"
  using assms
  by (simp add: route_scored_def Let_def bind_result_def py_next_iter_def dict_getitem_def)

lemma py_sorted_desc_mset: "mset (py_sorted_desc items) = mset items"
  by (simp add: py_sorted_desc_def)

lemma py_sorted_desc_sorted: "sorted_wrt (\<lambda>x y. snd y \<le> snd x) (py_sorted_desc items)"
proof -
  have "sorted (map snd (sort_key snd (rev items)))" by (rule sorted_sort_key)
  then have "sorted_wrt (\<lambda>x y. snd x \<le> snd y) (sort_key snd (rev items))"
    by (simp add: sorted_wrt_map)
  then show ?thesis
    by (simp add: py_sorted_desc_def sorted_wrt_rev)
qed

lemma route_scored_multiple:
  assumes "scores = pattern_match findall text" and "2 \<le> length scores"
  shows "\<exists>top second rest.
      py_sorted_desc scores = top # second # rest \<and>
      route_scored findall unicode_lower generate text =
        (if 2 * snd second < snd top
         then Inr (fst top, \<lparr>meta_method = ''pattern'', meta_scores = Some scores,
                              meta_confidence = 0.9\<rparr>)
         else bind_result (resolve_conflicts scores)
                (\<lambda>agent. Inr (agent, \<lparr>meta_method = ''priority_weighted'',
                                        meta_scores = Some scores, meta_confidence = 0.7\<rparr>)))"
proof -
  have len: "length (py_sorted_desc scores) = length scores"
    by (simp add: py_sorted_desc_def)
  then obtain top second rest where srt: "py_sorted_desc scores = top # second # rest"
    using assms(2) by (cases "py_sorted_desc scores"; cases "tl (py_sorted_desc scores)") auto
  have ne: "pattern_match findall text \<noteq> []" "length (pattern_match findall text) \<noteq> 1"
    using assms by auto
  have "route_scored findall unicode_lower generate text =
        (if 2 * snd second < snd top
         then Inr (fst top, \<lparr>meta_method = ''pattern'', meta_scores = Some scores,
                              meta_confidence = 0.9\<rparr>)
         else bind_result (resolve_conflicts scores)
                (\<lambda>agent. Inr (agent, \<lparr>meta_method = ''priority_weighted'',
                                        meta_scores = Some scores, meta_confidence = 0.7\<rparr>)))"
    using ne srt[unfolded assms(1)] assms(1)
    by (simp add: route_scored_def Let_def bind_result_def py_index_def mult.commute)
  with srt show ?thesis by blast
qed


lemma resolve_conflicts_total:
  "\<exists>agent. resolve_conflicts scores = Inr agent"
proof (cases "scores = []")
  case True
  then show ?thesis by (simp add: resolve_conflicts_def)
next
  case False
  from resolve_conflicts_first_max[OF False] show ?thesis by blast
qed

text \<open>
  Claim C1. When the score map of the text holds two or more categories and no agent
  is forced, \<open>route\<close> sorts the items by raw hit count, descending: the sorted list is a
  permutation of the score map, begins with the top and the second-highest item, and is
  in descending order of hits. If the top score exceeds twice the second score, \<open>route\<close>
  returns the top category with method \<open>pattern\<close> and confidence 0.9; otherwise the
  conflict resolver returns a category and \<open>route\<close> returns it with method
  \<open>priority_weighted\<close> and confidence 0.7.
\<close>

theorem route_multiple_categories:
  assumes "scores = pattern_match findall text" and "2 \<le> length scores"
  shows "\<exists>top second rest.
      py_sorted_desc scores = top # second # rest
    \<and> mset (top # second # rest) = mset scores
    \<and> sorted_wrt (\<lambda>x y. snd y \<le> snd x) (top # second # rest)
    \<and> (if 2 * snd second < snd top
       then route findall unicode_lower generate text None =
              Inr (fst top, \<lparr>meta_method = ''pattern'', meta_scores = Some scores,
                              meta_confidence = 0.9\<rparr>)
       else \<exists>agent. resolve_conflicts scores = Inr agent
              \<and> route findall unicode_lower generate text None =
                  Inr (agent, \<lparr>meta_method = ''priority_weighted'', meta_scores = Some scores,
                               meta_confidence = 0.7\<rparr>))"
proof -
  from route_scored_multiple[OF assms, of unicode_lower generate]
  obtain top second rest where srt: "py_sorted_desc scores = top # second # rest"
    and r: "route_scored findall unicode_lower generate text =
        (if 2 * snd second < snd top
         then Inr (fst top, \<lparr>meta_method = ''pattern'', meta_scores = Some scores,
                              meta_confidence = 0.9\<rparr>)
         else bind_result (resolve_conflicts scores)
                (\<lambda>agent. Inr (agent, \<lparr>meta_method = ''priority_weighted'',
                                        meta_scores = Some scores, meta_confidence = 0.7\<rparr>)))"
    by blast
  have m: "mset (top # second # rest) = mset scores"
    using py_sorted_desc_mset[of scores] srt by simp
  have s: "sorted_wrt (\<lambda>x y. snd y \<le> snd x) (top # second # rest)"
    using py_sorted_desc_sorted[of scores] srt by simp
  obtain agent where a: "resolve_conflicts scores = Inr agent"
    using resolve_conflicts_total by blast
  have "if 2 * snd second < snd top
       then route findall unicode_lower generate text None =
              Inr (fst top, \<lparr>meta_method = ''pattern'', meta_scores = Some scores,
                              meta_confidence = 0.9\<rparr>)
       else \<exists>agent. resolve_conflicts scores = Inr agent
              \<and> route findall unicode_lower generate text None =
                  Inr (agent, \<lparr>meta_method = ''priority_weighted'', meta_scores = Some scores,
                               meta_confidence = 0.7\<rparr>)"
    using r a by (simp add: route_unforced bind_result_def)
  with srt m s show ?thesis by blast
qed

theorem route_multiple_categories_witness:
  "2 \<le> length (pattern_match (\<lambda>p t. if p = Pattern FILE 0 then 5 else if p = Pattern CHAT 0 then 2 else 0)
                    ''hello, hi: read, copy, move, list and delete the file'')
   \<and> route (\<lambda>p t. if p = Pattern FILE 0 then 5 else if p = Pattern CHAT 0 then 2 else 0)
        (\<lambda>s. s) (\<lambda>prompt. Inl (BackendError ''unreachable''))
        ''hello, hi: read, copy, move, list and delete the file'' None =
      Inr (FILE, \<lparr>meta_method = ''pattern'', meta_scores = Some [(FILE, 5), (CHAT, 2)],
                  meta_confidence = 0.9\<rparr>)"
proof -
  let ?f = "\<lambda>p (t::string). if p = Pattern FILE 0 then 5 else if p = Pattern CHAT 0 then (2::nat) else 0"
  let ?t = "''hello, hi: read, copy, move, list and delete the file''"
  have pm: "pattern_match ?f ?t = [(FILE, 5), (CHAT, 2)]"
    by (simp add: pattern_match_def INTENT_PATTERNS_def category_score_def)
  have len: "2 \<le> length (pattern_match ?f ?t)" by (simp add: pm)
  have srt: "py_sorted_desc [(FILE, 5::nat), (CHAT, 2)] = [(FILE, 5), (CHAT, 2)]"
    by (simp add: py_sorted_desc_def)
  have len2: "2 \<le> length [(FILE, 5::nat), (CHAT, 2)]" by simp
  show ?thesis
    using route_multiple_categories[OF pm[symmetric] len2,
            of "\<lambda>s. s" "\<lambda>prompt. Inl (BackendError ''unreachable'')"] len
    by (auto simp: srt)
qed

text \<open>
  Claim C2. When the score map of the text is exactly one category with \<open>h\<close> hits and
  no agent is forced, \<open>route\<close> returns that category with method \<open>pattern\<close> and
  confidence \<open>min(h * 0.3, 1.0)\<close>, the product being the double product of the count
  and the double of \<open>0.3\<close>.
\<close>

theorem route_single_category:
  assumes "pattern_match findall text = [(agent, h)]"
  shows "route findall unicode_lower generate text None =
     Inr (agent, \<lparr>meta_method = ''pattern'', meta_scores = Some [(agent, h)],
                  meta_confidence = min (valof (float_mul (float_of_nat h) double_0_3)) 1.0\<rparr>)"
  using route_scored_single[OF assms] by (simp add: route_unforced)

theorem route_single_category_witness:
  "pattern_match (\<lambda>p t. if p = Pattern FILE 0 then 2 else if p = Pattern FILE 2 then 1 else 0)
      ''read the report.txt file'' = [(FILE, 3)]
   \<and> route (\<lambda>p t. if p = Pattern FILE 0 then 2 else if p = Pattern FILE 2 then 1 else 0)
        (\<lambda>s. s) (\<lambda>prompt. Inl (BackendError ''unreachable''))
        ''read the report.txt file'' None =
      Inr (FILE, \<lparr>meta_method = ''pattern'', meta_scores = Some [(FILE, 3)],
                  meta_confidence = 8106479329266892 / 2 ^ 53\<rparr>)
   \<and> (8106479329266892 / 2 ^ 53 :: real) < 0.9"
proof -
  let ?f = "\<lambda>p (t::string). if p = Pattern FILE 0 then 2 else if p = Pattern FILE 2 then (1::nat) else 0"
  have pm: "pattern_match ?f ''read the report.txt file'' = [(FILE, 3)]"
    by (simp add: pattern_match_def INTENT_PATTERNS_def category_score_def)
  have v: "min (valof (float_mul (float_of_nat 3) double_0_3)) 1 = 8106479329266892 / 2 ^ 53"
    by (simp add: single_match_products valof_def)
  show ?thesis
    using route_single_category[OF pm, of "\<lambda>s. s" "\<lambda>prompt. Inl (BackendError ''unreachable'')"] pm
    by (simp add: v)
qed

text \<open>
  Claim C3. When the score map of the text is empty and no agent is forced: if the
  fallback classifier returns no category, \<open>route\<close> returns \<open>CHAT\<close> with method
  \<open>default\<close> and confidence 0.5; if it returns a category, \<open>route\<close> returns that
  category with method \<open>llm\<close> and confidence 0.8. The classifier returns no category on
  a transport failure, and on a reply it returns what \<open>agent_map\<close> holds for the
  normalised reply, which is nothing for an unrecognised reply.
\<close>

theorem route_no_pattern_hits:
  assumes "pattern_match findall text = []"
  shows "(llm_classify unicode_lower generate text = Inr None \<longrightarrow>
            route findall unicode_lower generate text None =
              Inr (CHAT, \<lparr>meta_method = ''default'', meta_scores = Some [],
                          meta_confidence = 0.5\<rparr>))
       \<and> (\<forall>agent. llm_classify unicode_lower generate text = Inr (Some agent) \<longrightarrow>
            route findall unicode_lower generate text None =
              Inr (agent, \<lparr>meta_method = ''llm'', meta_scores = Some [],
                           meta_confidence = 0.8\<rparr>))
       \<and> (\<forall>e. generate (classify_prompt text) = Inl e \<longrightarrow>
            llm_classify unicode_lower generate text = Inr None)
       \<and> (\<forall>reply. generate (classify_prompt text) = Inr reply \<longrightarrow>
            llm_classify unicode_lower generate text = Inr (map_of agent_map (normalize_reply unicode_lower reply)))"
  using route_scored_empty[OF assms, of unicode_lower generate]
  by (simp add: route_unforced llm_classify_total)

theorem route_no_pattern_hits_witness:
  "pattern_match (\<lambda>p t. 0) ''xyz123 random gibberish'' = []
   \<and> route (\<lambda>p t. 0) (\<lambda>s. s) (\<lambda>prompt. Inl (BackendError ''unreachable''))
        ''xyz123 random gibberish'' None =
        Inr (CHAT, \<lparr>meta_method = ''default'', meta_scores = Some [], meta_confidence = 0.5\<rparr>)
   \<and> route (\<lambda>p t. 0) (\<lambda>s. s) (\<lambda>prompt. Inr (ascii ''I cannot tell''))
        ''xyz123 random gibberish'' None =
        Inr (CHAT, \<lparr>meta_method = ''default'', meta_scores = Some [], meta_confidence = 0.5\<rparr>)
   \<and> route (\<lambda>p t. 0) (\<lambda>s. s) (\<lambda>prompt. Inr (ascii '' Code: ''))
        ''xyz123 random gibberish'' None =
        Inr (CODE, \<lparr>meta_method = ''llm'', meta_scores = Some [], meta_confidence = 0.8\<rparr>)"
proof -
  have pm: "pattern_match (\<lambda>p t. 0) ''xyz123 random gibberish'' = []"
    by (simp add: pattern_match_def INTENT_PATTERNS_def category_score_def)
  have n1: "map_of agent_map (normalize_reply (\<lambda>s. s) (ascii ''I cannot tell'')) = None"
    by (simp add: agent_map_def normalize_reply_def strip_def lower_def lower_ascii_def
        remove_char_def is_space_def ascii_def)
  have n2: "map_of agent_map (normalize_reply (\<lambda>s. s) (ascii '' Code: '')) = Some CODE"
    by (simp add: agent_map_def normalize_reply_def strip_def lower_def lower_ascii_def
        remove_char_def is_space_def ascii_def)
  show ?thesis
    using route_no_pattern_hits[OF pm, of "\<lambda>s. s" "\<lambda>prompt. Inl (BackendError ''unreachable'')"]
      route_no_pattern_hits[OF pm, of "\<lambda>s. s" "\<lambda>prompt. Inr (ascii ''I cannot tell'')"]
      route_no_pattern_hits[OF pm, of "\<lambda>s. s" "\<lambda>prompt. Inr (ascii '' Code: '')"] pm
    by (simp add: n1 n2)
qed

text \<open>
  Claim C8. For every text and every outcome of the generation call, a reply or an
  exception, the fallback classifier returns and does not raise: its result is \<open>None\<close>
  when the call raised, and otherwise what \<open>agent_map\<close> holds for the normalised
  reply, so it is either \<open>None\<close> or one of the categories of \<open>agent_map\<close>.
\<close>

theorem llm_classify_never_raises:
  "llm_classify unicode_lower generate text =
     Inr (case generate (classify_prompt text) of
            Inl e \<Rightarrow> None
          | Inr response \<Rightarrow> map_of agent_map (normalize_reply unicode_lower response))
   \<and> (\<exists>r. llm_classify unicode_lower generate text = Inr r
          \<and> (r = None \<or> (\<exists>agent. r = Some agent \<and> agent \<in> snd ` set agent_map)))"
proof -
  have eq: "llm_classify unicode_lower generate text =
     Inr (case generate (classify_prompt text) of
            Inl e \<Rightarrow> None
          | Inr response \<Rightarrow> map_of agent_map (normalize_reply unicode_lower response))"
    by (rule llm_classify_total)
  have "r = None \<or> (\<exists>agent. r = Some agent \<and> agent \<in> snd ` set agent_map)"
    if h: "r = (case generate (classify_prompt text) of
            Inl e \<Rightarrow> None
          | Inr response \<Rightarrow> map_of agent_map (normalize_reply unicode_lower response))" for r
  proof (cases r)
    case None
    then show ?thesis by simp
  next
    case (Some agent)
    then obtain response where "map_of agent_map (normalize_reply unicode_lower response) = Some agent"
      using h by (auto split: sum.splits)
    then have "(normalize_reply unicode_lower response, agent) \<in> set agent_map" by (rule map_of_SomeD)
    then have "agent \<in> snd ` set agent_map" by force
    with Some show ?thesis by simp
  qed
  with eq show ?thesis by simp
qed

text \<open>
  Claim C9. Every call of \<open>route\<close>, forced or not and whatever the text, the regex
  matches and the generation backend do, returns a decision whose confidence lies
  between 0 and 1.
\<close>

theorem route_confidence_bounds:
  "\<exists>agent md. route findall unicode_lower generate text force_agent = Inr (agent, md)
     \<and> 0 \<le> meta_confidence md \<and> meta_confidence md \<le> 1"
proof (cases force_agent)
  case (Some a)
  then show ?thesis by (simp add: route_forced)
next
  case None
  let ?scores = "pattern_match findall text"
  have r: "route findall unicode_lower generate text force_agent = route_scored findall unicode_lower generate text"
    using None by (simp add: route_unforced)
  consider (empty) "?scores = []" | (single) a h where "?scores = [(a, h)]"
    | (multi) "2 \<le> length ?scores"
    by (cases ?scores; cases "tl ?scores") auto
  then show ?thesis
  proof cases
    case empty
    show ?thesis
      unfolding r route_scored_empty[OF empty] llm_classify_total
      by (simp split: sum.splits option.splits)
  next
    case single
    show ?thesis
      unfolding r route_scored_single[OF single] by (simp add: valof_nonneg)
  next
    case multi
    obtain agent where a: "resolve_conflicts ?scores = Inr agent"
      using resolve_conflicts_total by blast
    from route_scored_multiple[OF refl multi, of unicode_lower generate] show ?thesis
      unfolding r using a by (auto simp: bind_result_def)
  qed
qed



lemma weighted_score_member:
  assumes "distinct (map fst scores)" and "(a, n) \<in> set scores"
  shows "weighted_score scores a = n * priority a"
  using assms by (simp add: weighted_score_def dict_get_def)

lemma priority_ranking:
  "priority CODE = 10" "priority FILE = 9" "priority MAIL = 8" "priority KEY = 8"
  "priority WORKFLOW = 7" "priority SECURITY = 7" "priority SEARCH = 5" "priority CHAT = 1"
  by (simp_all add: priority_def dict_get_def AGENT_PRIORITIES_def)

text \<open>
  Claim C4. Let two categories have the same positive raw hit count \<open>n\<close> and let
  \<open>a\<close> have the higher priority weight. On the score map made of these two categories,
  in either order, the conflict resolver returns \<open>a\<close>; on every score map that holds
  both, it returns a category other than \<open>b\<close> whose weighted score is at least that of
  \<open>a\<close>. The priority weights are ranked code, file, mail and key (equal), workflow and
  security (equal), search, chat.
\<close>

theorem resolve_conflicts_equal_hits:
  assumes "0 < n" and "priority b < priority a"
  shows "(scores = [(a, n), (b, n)] \<or> scores = [(b, n), (a, n)] \<longrightarrow>
            resolve_conflicts scores = Inr a)
       \<and> (distinct (map fst scores) \<and> (a, n) \<in> set scores \<and> (b, n) \<in> set scores \<longrightarrow>
            (\<exists>r. resolve_conflicts scores = Inr r \<and> r \<noteq> b
                 \<and> weighted_score scores a \<le> weighted_score scores r))
       \<and> priority FILE < priority CODE \<and> priority MAIL < priority FILE
       \<and> priority MAIL = priority KEY \<and> priority WORKFLOW < priority KEY
       \<and> priority WORKFLOW = priority SECURITY \<and> priority SEARCH < priority SECURITY
       \<and> priority CHAT < priority SEARCH"
proof -
  have gen: "\<exists>r. resolve_conflicts scores = Inr r \<and> r \<noteq> b \<and> r \<in> set (map fst scores)
                 \<and> weighted_score scores a \<le> weighted_score scores r"
    if d: "distinct (map fst scores)" and ma: "(a, n) \<in> set scores" and mb: "(b, n) \<in> set scores"
    for scores
  proof -
    have ne: "scores \<noteq> []" using ma by auto
    from resolve_conflicts_first_max[OF ne]
    obtain r pre post where r: "resolve_conflicts scores = Inr r"
      and split: "map fst scores = pre @ r # post"
      and pre: "\<forall>y\<in>set pre. weighted_score scores y < weighted_score scores r"
      and post: "\<forall>y\<in>set post. weighted_score scores y \<le> weighted_score scores r"
      by blast
    have "a \<in> set (map fst scores)" using ma by force
    then have "a \<in> set pre \<or> a = r \<or> a \<in> set post" unfolding split by auto
    then have le: "weighted_score scores a \<le> weighted_score scores r"
      using pre post by (auto intro: less_imp_le)
    have "weighted_score scores b < weighted_score scores a"
      using assms by (simp add: weighted_score_member[OF d ma] weighted_score_member[OF d mb])
    with le have nb: "r \<noteq> b" by auto
    have mem: "r \<in> set (map fst scores)" unfolding split by simp
    from r nb mem le show ?thesis by blast
  qed
  have ab: "a \<noteq> b" using assms(2) by auto
  have two: "resolve_conflicts scores = Inr a"
    if s: "scores = [(a, n), (b, n)] \<or> scores = [(b, n), (a, n)]"
  proof -
    have d: "distinct (map fst scores)" and ma: "(a, n) \<in> set scores"
      and mb: "(b, n) \<in> set scores" and keys: "set (map fst scores) = {a, b}"
      using s ab by auto
    from gen[OF d ma mb] obtain r where r: "resolve_conflicts scores = Inr r" and nb: "r \<noteq> b"
      and mem: "r \<in> set (map fst scores)"
      by blast
    from mem keys nb have "r = a" by auto
    with r show ?thesis by simp
  qed
  have gen': "\<exists>r. resolve_conflicts scores = Inr r \<and> r \<noteq> b
                 \<and> weighted_score scores a \<le> weighted_score scores r"
    if "distinct (map fst scores) \<and> (a, n) \<in> set scores \<and> (b, n) \<in> set scores"
    using gen[of scores] that by blast
  show ?thesis using gen' two by (simp add: priority_ranking)
qed

theorem resolve_conflicts_equal_hits_witness:
  "(0::nat) < 2 \<and> priority SEARCH < priority CODE
   \<and> resolve_conflicts [(CODE, 2), (SEARCH, 2)] = Inr CODE
   \<and> resolve_conflicts [(SEARCH, 2), (CODE, 2)] = Inr CODE"
proof -
  have n: "(0::nat) < 2" by simp
  have p: "priority SEARCH < priority CODE" by (simp add: priority_ranking)
  show ?thesis
    using resolve_conflicts_equal_hits[OF n p, of "[(CODE, 2), (SEARCH, 2)]"]
      resolve_conflicts_equal_hits[OF n p, of "[(SEARCH, 2), (CODE, 2)]"] p
    by simp
qed

text \<open>
  Claim C10. On a non-empty score map built by \<open>pattern_match\<close>, the conflict resolver
  returns a category of the map with the maximal weighted score, and every other
  category of the map with the same weighted score comes later in the definition order
  of the pattern table, which is file, mail, key, workflow, security, code, search, chat.
\<close>

theorem resolve_conflicts_tie_break:
  assumes "scores = pattern_match findall text" and "scores \<noteq> []"
  shows "map fst INTENT_PATTERNS = [FILE, MAIL, KEY, WORKFLOW, SECURITY, CODE, SEARCH, CHAT]
       \<and> (\<exists>r. resolve_conflicts scores = Inr r \<and> r \<in> fst ` set scores
            \<and> (\<forall>b\<in>fst ` set scores. weighted_score scores b \<le> weighted_score scores r)
            \<and> (\<forall>b\<in>fst ` set scores.
                  b \<noteq> r \<and> weighted_score scores b = weighted_score scores r \<longrightarrow>
                  table_position r < table_position b))"
proof -
  from resolve_conflicts_first_max[OF assms(2)]
  obtain r pre post where r: "resolve_conflicts scores = Inr r"
    and split: "map fst scores = pre @ r # post"
    and pre: "\<forall>y\<in>set pre. weighted_score scores y < weighted_score scores r"
    and post: "\<forall>y\<in>set post. weighted_score scores y \<le> weighted_score scores r"
    by blast
  have "set (map fst scores) = set (pre @ r # post)" using split by simp
  then have keys: "fst ` set scores = set pre \<union> {r} \<union> set post" by simp
  have mem: "r \<in> fst ` set scores" using keys by simp
  have mx: "\<forall>b\<in>fst ` set scores. weighted_score scores b \<le> weighted_score scores r"
    using keys pre post by (auto intro: less_imp_le)
  have ord: "sorted_wrt (\<lambda>x y. table_position x < table_position y) (pre @ r # post)"
    using pattern_match_order[of findall "text"] assms(1) split by simp
  have later: "\<forall>b\<in>set post. table_position r < table_position b"
    using ord by (simp add: sorted_wrt_append)
  have tie: "\<forall>b\<in>fst ` set scores.
                  b \<noteq> r \<and> weighted_score scores b = weighted_score scores r \<longrightarrow>
                  table_position r < table_position b"
  proof (intro ballI impI)
    fix b assume b: "b \<in> fst ` set scores"
      and t: "b \<noteq> r \<and> weighted_score scores b = weighted_score scores r"
    have "b \<notin> set pre" using pre t by auto
    with b t keys have "b \<in> set post" by auto
    with later show "table_position r < table_position b" by simp
  qed
  have tbl: "map fst INTENT_PATTERNS = [FILE, MAIL, KEY, WORKFLOW, SECURITY, CODE, SEARCH, CHAT]"
    by (simp add: INTENT_PATTERNS_def)
  from tbl r mem mx tie show ?thesis by blast
qed

theorem resolve_conflicts_tie_break_witness:
  "pattern_match (\<lambda>p t. if p = Pattern MAIL 0 \<or> p = Pattern KEY 0 then 2 else 0)
      ''mail the token, send the password'' \<noteq> []
   \<and> resolve_conflicts (pattern_match (\<lambda>p t. if p = Pattern MAIL 0 \<or> p = Pattern KEY 0 then 2 else 0)
      ''mail the token, send the password'') = Inr MAIL"
proof -
  let ?f = "\<lambda>p (t::string). if p = Pattern MAIL 0 \<or> p = Pattern KEY 0 then (2::nat) else 0"
  let ?t = "''mail the token, send the password''"
  have pm: "pattern_match ?f ?t = [(MAIL, 2), (KEY, 2)]"
    by (simp add: pattern_match_def INTENT_PATTERNS_def category_score_def)
  have ne: "[(MAIL, 2::nat), (KEY, 2)] \<noteq> []" by simp
  have w: "weighted_score [(MAIL, 2), (KEY, 2)] MAIL = 16" "weighted_score [(MAIL, 2), (KEY, 2)] KEY = 16"
    by (simp_all add: weighted_score_def dict_get_def priority_ranking)
  have t: "table_position MAIL = 1" "table_position KEY = 2"
    by (simp_all add: table_position_def INTENT_PATTERNS_def)
  show ?thesis
    using resolve_conflicts_tie_break[OF pm[symmetric] ne]
    by (auto simp: pm w t)
qed


section \<open>Properties of the RAG pipeline\<close>

subsection \<open>The vector store and deletion\<close>

lemma upsert_point_fresh:
  "point_id p \<notin> point_id ` set ps \<Longrightarrow> upsert_point p ps = ps @ [p]"
  by (simp add: upsert_point_def)

lemma upsert_fresh:
  "distinct (map point_id new_points) \<Longrightarrow>
   point_id ` set new_points \<inter> point_id ` set ps = {} \<Longrightarrow>
   upsert ps new_points = ps @ new_points"
proof (induction new_points arbitrary: ps)
  case Nil
  then show ?case by (simp add: upsert_def)
next
  case (Cons p new_points)
  have fresh: "point_id p \<notin> point_id ` set ps" using Cons.prems(2) by auto
  have d: "distinct (map point_id new_points)" using Cons.prems(1) by simp
  have disj: "point_id ` set new_points \<inter> point_id ` set (ps @ [p]) = {}"
    using Cons.prems by auto
  have "upsert ps (p # new_points) = upsert (ps @ [p]) new_points"
    by (simp add: upsert_def upsert_point_fresh[OF fresh])
  also have "\<dots> = (ps @ [p]) @ new_points" by (rule Cons.IH[OF d disj])
  finally show ?case by simp
qed

lemma filter_not_in_take:
  assumes "distinct ys"
  shows "filter (\<lambda>p. p \<notin> set (take k ys)) ys = drop k ys"
proof -
  have disj: "set (take k ys) \<inter> set (drop k ys) = {}"
    using assms by (metis append_take_drop_id distinct_append)
  let ?Q = "\<lambda>p. p \<notin> set (take k ys)"
  have a: "filter ?Q (take k ys) = []" by simp
  have b: "filter ?Q (drop k ys) = drop k ys"
    using disj by (intro filter_True) auto
  have "filter ?Q ys = filter ?Q (take k ys @ drop k ys)"
    by (simp only: append_take_drop_id)
  also have "\<dots> = filter ?Q (take k ys) @ filter ?Q (drop k ys)"
    by (rule filter_append)
  also have "\<dots> = drop k ys" unfolding a b by simp
  finally show ?thesis .
qed

lemma delete_points_by_elements:
  assumes "distinct (map point_id ps)" and "set T \<subseteq> set ps"
  shows "delete_points ps (map point_id T) = filter (\<lambda>p. p \<notin> set T) ps"
proof -
  have inj: "inj_on point_id (set ps)" using assms(1) by (simp add: distinct_map)
  have "point_id p \<in> point_id ` set T \<longleftrightarrow> p \<in> set T" if "p \<in> set ps" for p
    using inj that assms(2) by (meson inj_on_image_mem_iff)
  then show ?thesis
    unfolding delete_points_def by (intro filter_cong) auto
qed

lemma delete_page_matching:
  assumes "distinct (map point_id ps)"
  shows "filter P (delete_points ps (map point_id (take k (filter P ps)))) = drop k (filter P ps)"
proof -
  have sub: "set (take k (filter P ps)) \<subseteq> set ps"
    by (meson filter_is_subset set_take_subset subset_trans)
  have d: "distinct (filter P ps)" using assms by (simp add: distinct_map)
  have "filter P (delete_points ps (map point_id (take k (filter P ps))))
        = filter (\<lambda>p. p \<notin> set (take k (filter P ps))) (filter P ps)"
    unfolding delete_points_by_elements[OF assms sub] by (simp add: conj_commute)
  then show ?thesis by (simp only: filter_not_in_take[OF d])
qed

lemma delete_page_other:
  "filter (\<lambda>p. \<not> P p) (delete_points ps (map point_id (take k (filter P ps))))
     = filter (\<lambda>p. \<not> P p) ps" if "distinct (map point_id ps)"
proof -
  have sub: "set (take k (filter P ps)) \<subseteq> set ps"
    by (meson filter_is_subset set_take_subset subset_trans)
  have "p \<notin> set (take k (filter P ps))" if "\<not> P p" for p
  proof
    assume "p \<in> set (take k (filter P ps))"
    then have "p \<in> set (filter P ps)" by (rule in_set_takeD)
    with that show False by simp
  qed
  then show ?thesis
    unfolding delete_points_by_elements[OF that sub] by (auto intro: filter_cong)
qed

lemma delete_document_result:
  assumes "store_fault env = None"
  shows "delete_document env doc_id s =
     (Inr (min 1000 (length (filter (matches_doc_id doc_id) (collection s)))),
      s\<lparr>qdrant_client := True,
        collection := delete_points (collection s)
           (map point_id (take 1000 (filter (matches_doc_id doc_id) (collection s))))\<rparr>)"
proof -
  have e: "delete_points (collection s) [] = collection s" by (simp add: delete_points_def)
  show ?thesis
    using assms e
    by (cases "filter (matches_doc_id doc_id) (collection s) = []")
       (auto simp: delete_document_def get_qdrant_def scroll_def Let_def min_def)
qed


lemma make_points_ids:
  "map point_id (make_points env draws doc_id chunks embeddings metadata)
     = map (\<lambda>i. uuid4 env (draws + i)) [0..<length (zip chunks embeddings)]"
proof -
  let ?zs = "zip chunks embeddings"
  have "map point_id (make_points env draws doc_id chunks embeddings metadata)
        = map (\<lambda>x. uuid4 env (draws + fst x)) (List.enumerate 0 ?zs)"
    by (simp add: make_points_def comp_def case_prod_beta)
  also have "\<dots> = map (\<lambda>i. uuid4 env (draws + i)) (map fst (List.enumerate 0 ?zs))"
    by (simp only: map_map comp_def)
  also have "map fst (List.enumerate 0 ?zs) = [0..<length ?zs]"
    by (simp only: map_fst_enumerate add_0)
  finally show ?thesis .
qed

lemma make_points_length:
  "length (make_points env draws doc_id chunks embeddings metadata) = length (zip chunks embeddings)"
  by (simp add: make_points_def)

lemma make_points_match:
  "p \<in> set (make_points env draws doc_id chunks embeddings None) \<Longrightarrow> matches_doc_id doc_id p"
  by (auto simp: make_points_def matches_doc_id_def make_payload_def)

lemma index_document_result:
  assumes "store_fault env = None"
    and "split_text env content \<noteq> []"
    and "embed env (split_text env content) = Inr embeddings"
  shows "index_document env doc_id content metadata s =
     (Inr (length (split_text env content)),
      s\<lparr>qdrant_client := True,
        embed_calls := embed_calls s @ [split_text env content],
        uuid_draws := uuid_draws s
           + length (make_points env (uuid_draws s) doc_id (split_text env content) embeddings metadata),
        collection := upsert (collection s)
           (make_points env (uuid_draws s) doc_id (split_text env content) embeddings metadata)\<rparr>)"
  using assms by (simp add: index_document_def get_qdrant_def Let_def)

lemma demo_split: "split_text demo_backend (replicate n c) = replicate n [c]"
  by (simp add: demo_backend_def)

lemma demo_embed: "embed demo_backend (replicate n t) = Inr (replicate n [1])"
  by (simp add: demo_backend_def)

lemma demo_fault: "store_fault demo_backend = None"
  by (simp add: demo_backend_def)

lemma demo_uuid4: "uuid4 demo_backend n = n"
  by (simp add: demo_backend_def)

lemma indexed_1001_collection:
  "collection indexed_1001 =
     make_points demo_backend 0 ''manual'' (replicate 1001 ''a'') (replicate 1001 [1]) None"
  and indexed_1001_result:
  "fst (index_document demo_backend ''manual'' (replicate 1001 CHR ''a'') None empty_state) = Inr 1001"
proof -
  have ne: "split_text demo_backend (replicate 1001 CHR ''a'') \<noteq> []"
    by (simp add: demo_split)
  have em: "embed demo_backend (split_text demo_backend (replicate 1001 CHR ''a'')) = Inr (replicate 1001 [1])"
    by (simp add: demo_split demo_embed)
  note r = index_document_result[OF demo_fault ne em, of "''manual''" None empty_state]
  have c0: "collection empty_state = []" and d0: "uuid_draws empty_state = 0"
    by (simp_all add: empty_state_def)
  have up: "upsert [] ps = ps" if "distinct (map point_id ps)" for ps
    using upsert_fresh[OF that, of "[]"] by simp
  have dist: "distinct (map point_id
      (make_points demo_backend 0 ''manual'' (replicate 1001 ''a'') (replicate 1001 [1]) None))"
    by (simp add: make_points_ids demo_uuid4 distinct_map)
  show "collection indexed_1001 =
     make_points demo_backend 0 ''manual'' (replicate 1001 ''a'') (replicate 1001 [1]) None"
    unfolding indexed_1001_def r by (simp add: c0 d0 demo_split up[OF dist])
  show "fst (index_document demo_backend ''manual'' (replicate 1001 CHR ''a'') None empty_state) = Inr 1001"
    unfolding r by (simp add: demo_split)
qed

lemma indexed_1001_matching:
  "filter (matches_doc_id ''manual'') (collection indexed_1001) = collection indexed_1001"
  unfolding indexed_1001_collection by (intro filter_True ballI) (rule make_points_match)

lemma indexed_1001_length: "length (collection indexed_1001) = 1001"
  unfolding indexed_1001_collection by (simp add: make_points_length)

lemma indexed_1001_distinct: "distinct (map point_id (collection indexed_1001))"
  unfolding indexed_1001_collection by (simp add: make_points_ids demo_uuid4 distinct_map)

text \<open>
  Claim C5, evaluated on a document of 1001 chunks. Indexing the document into an empty
  collection returns 1001 and stores 1001 points that carry its id. The first
  \<open>delete_document\<close> reads one scroll page of at most 1000 points, so it returns 1000
  and one point of the document stays in the collection; the second \<open>delete_document\<close>
  on the same id returns 1, not 0. For a document of at most 1000 points the round trip
  is as claimed, see \<open>delete_document_round_trip\<close>.
\<close>

theorem delete_document_first_page_only:
  "fst (index_document demo_backend ''manual'' (replicate 1001 CHR ''a'') None empty_state) = Inr 1001
   \<and> length (filter (matches_doc_id ''manual'') (collection indexed_1001)) = 1001
   \<and> fst (delete_document demo_backend ''manual'' indexed_1001) = Inr 1000
   \<and> length (filter (matches_doc_id ''manual'')
        (collection (snd (delete_document demo_backend ''manual'' indexed_1001)))) = 1
   \<and> fst (delete_document demo_backend ''manual''
        (snd (delete_document demo_backend ''manual'' indexed_1001))) = Inr 1"
proof -
  let ?s1 = "snd (delete_document demo_backend ''manual'' indexed_1001)"
  note d1 = delete_document_result[OF demo_fault, of "''manual''" indexed_1001]
  have m: "length (filter (matches_doc_id ''manual'') (collection indexed_1001)) = 1001"
    by (simp add: indexed_1001_matching indexed_1001_length)
  have r1: "fst (delete_document demo_backend ''manual'' indexed_1001) = Inr 1000"
    unfolding d1 by (simp add: m)
  have c1: "filter (matches_doc_id ''manual'') (collection ?s1)
            = drop 1000 (filter (matches_doc_id ''manual'') (collection indexed_1001))"
    unfolding d1 by (simp add: delete_page_matching[OF indexed_1001_distinct])
  have l1: "length (filter (matches_doc_id ''manual'') (collection ?s1)) = 1"
    unfolding c1 by (simp add: m)
  have r2: "fst (delete_document demo_backend ''manual'' ?s1) = Inr 1"
    unfolding delete_document_result[OF demo_fault, of "''manual''" ?s1] by (simp add: l1)
  from indexed_1001_result m r1 l1 r2 show ?thesis by simp
qed


lemma delete_document_round_trip:
  assumes "store_fault env = None"
    and "distinct (map point_id (collection s))"
    and "length (filter (matches_doc_id doc_id) (collection s)) \<le> 1000"
  shows "fst (delete_document env doc_id s)
           = Inr (length (filter (matches_doc_id doc_id) (collection s)))"
    and "collection (snd (delete_document env doc_id s))
           = filter (\<lambda>p. \<not> matches_doc_id doc_id p) (collection s)"
    and "fst (delete_document env doc_id (snd (delete_document env doc_id s))) = Inr 0"
proof -
  let ?P = "matches_doc_id doc_id"
  let ?s1 = "snd (delete_document env doc_id s)"
  note d = delete_document_result[OF assms(1), of doc_id s]
  show "fst (delete_document env doc_id s) = Inr (length (filter ?P (collection s)))"
    unfolding d using assms(3) by simp
  have c1: "collection ?s1 = delete_points (collection s)
              (map point_id (take 1000 (filter ?P (collection s))))"
    unfolding d by simp
  have "filter ?P (collection ?s1) = drop 1000 (filter ?P (collection s))"
    unfolding c1 by (rule delete_page_matching[OF assms(2)])
  then have none: "filter ?P (collection ?s1) = []"
    using assms(3) by simp
  have other: "filter (\<lambda>p. \<not> ?P p) (collection ?s1) = filter (\<lambda>p. \<not> ?P p) (collection s)"
    unfolding c1 by (rule delete_page_other[OF assms(2)])
  have "filter (\<lambda>p. \<not> ?P p) (collection ?s1) = collection ?s1"
    using none by (intro filter_True) (auto simp: filter_empty_conv)
  with other show "collection ?s1 = filter (\<lambda>p. \<not> ?P p) (collection s)" by simp
  show "fst (delete_document env doc_id ?s1) = Inr 0"
    unfolding delete_document_result[OF assms(1), of doc_id ?s1] by (simp add: none)
qed

lemma index_document_store_down:
  "fst (index_document down_backend ''manual'' '''' None empty_state)
     = Inl (BackendError ''connection refused'')"
  by (simp add: index_document_def get_qdrant_def down_backend_def demo_backend_def
      empty_state_def)

text \<open>
  The first call on a pipeline whose vector store refuses the request, with an empty
  content, which this splitter cuts into zero chunks: \<open>index_document\<close> raises the
  error of the store and does not return 0.
\<close>

theorem index_document_zero_chunks_raises:
  "split_text down_backend '''' = []
   \<and> fst (index_document down_backend ''manual'' '''' None empty_state)
       = Inl (BackendError ''connection refused'')
   \<and> fst (index_document down_backend ''manual'' '''' None empty_state) \<noteq> Inr 0"
  using index_document_store_down by (simp add: down_backend_def demo_backend_def)

text \<open>
  Claim C7, as amended. When the content splits into zero chunks, \<open>index_document\<close>
  makes no call to the embedding backend and stores nothing. It returns 0 when the
  vector-store client is at hand, that is, already created or created now with the
  store answering; when the client is created now and the store fails, it raises the
  error of the store.
\<close>

theorem index_document_zero_chunks:
  assumes "split_text env content = []"
  shows "embed_calls (snd (index_document env doc_id content metadata s)) = embed_calls s
       \<and> collection (snd (index_document env doc_id content metadata s)) = collection s
       \<and> (qdrant_client s \<or> store_fault env = None \<longrightarrow>
            fst (index_document env doc_id content metadata s) = Inr 0)
       \<and> (\<forall>e. \<not> qdrant_client s \<and> store_fault env = Some e \<longrightarrow>
            fst (index_document env doc_id content metadata s) = Inl e)"
  using assms
  by (auto simp: index_document_def get_qdrant_def Let_def split: option.splits)

theorem index_document_zero_chunks_witness:
  "split_text demo_backend '''' = []
   \<and> index_document demo_backend ''manual'' '''' None empty_state
       = (Inr 0, empty_state\<lparr>qdrant_client := True\<rparr>)
   \<and> embed_calls (snd (index_document demo_backend ''manual'' '''' None empty_state)) = []
   \<and> split_text down_backend '''' = []
   \<and> embed_calls (snd (index_document down_backend ''manual'' '''' None empty_state)) = []
   \<and> fst (index_document down_backend ''manual'' '''' None empty_state)
       = Inl (BackendError ''connection refused'')"
proof -
  have sp: "split_text demo_backend '''' = []" by (simp add: demo_backend_def)
  have sd: "split_text down_backend '''' = []" by (simp add: down_backend_def demo_backend_def)
  have fd: "store_fault down_backend = Some (BackendError ''connection refused'')"
    by (simp add: down_backend_def)
  have q: "\<not> qdrant_client empty_state" and ec: "embed_calls empty_state = []"
    by (simp_all add: empty_state_def)
  have ix: "index_document demo_backend ''manual'' '''' None empty_state
       = (Inr 0, empty_state\<lparr>qdrant_client := True\<rparr>)"
    by (simp add: index_document_def get_qdrant_def Let_def demo_backend_def empty_state_def)
  show ?thesis
    using index_document_zero_chunks[OF sp, of "''manual''" None empty_state]
      index_document_zero_chunks[OF sd, of "''manual''" None empty_state] sp sd ix fd q ec
    by simp
qed

lemma make_citation_content:
  "citation_content (make_citation doc) =
     (if length (document_content doc) \<le> 200 then document_content doc
      else take 200 (document_content doc) @ ''...'')"
  by (simp add: make_citation_def)

lemma make_citation_length: "length (citation_content (make_citation doc)) \<le> 203"
  by (simp add: make_citation_def)

lemma query_long_chunk:
  "fst (query demo_backend ''what does the manual say'' None None True long_chunk_state) =
     Inr (''answer'', [\<lparr>citation_id = 0, citation_source = PyStr ''manual'',
                        citation_content = replicate 200 CHR ''a'' @ ''...'',
                        citation_score = Some 0.9\<rparr>])"
  by (simp add: query_def search_def get_qdrant_def demo_backend_def long_chunk_state_def
      Let_def bind_result_def py_index_def to_document_def make_payload_def dict_get_def
      make_citation_def)

text \<open>
  A query that retrieves one chunk of 201 characters: the preview of its citation is the
  first 200 characters followed by three dots, 203 characters in all.
\<close>

theorem citation_preview_exceeds_200:
  "fst (query demo_backend ''what does the manual say'' None None True long_chunk_state) =
     Inr (''answer'', [\<lparr>citation_id = 0, citation_source = PyStr ''manual'',
                        citation_content = replicate 200 CHR ''a'' @ ''...'',
                        citation_score = Some 0.9\<rparr>])
   \<and> \<not> length (citation_content
          \<lparr>citation_id = 0, citation_source = PyStr ''manual'',
           citation_content = replicate 200 CHR ''a'' @ ''...'',
           citation_score = Some 0.9\<rparr>) \<le> 200"
  using query_long_chunk by simp

text \<open>
  Claim C6, as amended. When a query with citations requested returns, it returns one
  citation per retrieved document, in retrieval order: the i-th citation has the id,
  the source and the score of the i-th document, and its preview is the content of the
  document when that is at most 200 characters long, else the first 200 characters
  followed by three dots; so a preview is at most 203 characters long.
\<close>

theorem query_citations:
  assumes "fst (query env query_text system_instructions top_k True s) = Inr (response, citations)"
  shows "\<exists>documents.
           fst (search env query_text top_k None None None s) = Inr documents
         \<and> length citations = length documents
         \<and> (\<forall>i<length documents.
               citation_id (citations ! i) = document_id (documents ! i)
             \<and> citation_source (citations ! i)
                 = dict_get (document_metadata (documents ! i)) ''doc_id'' (PyStr ''unknown'')
             \<and> citation_score (citations ! i) = document_score (documents ! i)
             \<and> citation_content (citations ! i)
                 = (if length (document_content (documents ! i)) \<le> 200
                    then document_content (documents ! i)
                    else take 200 (document_content (documents ! i)) @ ''...'')
             \<and> length (citation_content (citations ! i)) \<le> 203)"
proof -
  obtain r s1 where sr: "search env query_text top_k None None None s = (r, s1)"
    by (cases "search env query_text top_k None None None s")
  from assms sr obtain documents where docs: "r = Inr documents"
    and cits: "citations = map make_citation documents"
    by (cases r) (auto simp: query_def Let_def split: sum.splits)
  have "fst (search env query_text top_k None None None s) = Inr documents"
    using sr docs by simp
  moreover have "length citations = length documents" using cits by simp
  moreover have "\<forall>i<length documents.
               citation_id (citations ! i) = document_id (documents ! i)
             \<and> citation_source (citations ! i)
                 = dict_get (document_metadata (documents ! i)) ''doc_id'' (PyStr ''unknown'')
             \<and> citation_score (citations ! i) = document_score (documents ! i)
             \<and> citation_content (citations ! i)
                 = (if length (document_content (documents ! i)) \<le> 200
                    then document_content (documents ! i)
                    else take 200 (document_content (documents ! i)) @ ''...'')
             \<and> length (citation_content (citations ! i)) \<le> 203"
    unfolding cits
    by (simp add: make_citation_content make_citation_length) (simp add: make_citation_def)
  ultimately show ?thesis by blast
qed

theorem query_citations_witness:
  "fst (query demo_backend ''what does the manual say'' None None True long_chunk_state) =
     Inr (''answer'', [\<lparr>citation_id = 0, citation_source = PyStr ''manual'',
                        citation_content = replicate 200 CHR ''a'' @ ''...'',
                        citation_score = Some 0.9\<rparr>])
   \<and> (\<exists>documents.
         fst (search demo_backend ''what does the manual say'' None None None None long_chunk_state)
           = Inr documents
       \<and> length documents = 1
       \<and> length (document_content (documents ! 0)) = 201)"
proof -
  have s: "fst (search demo_backend ''what does the manual say'' None None None None long_chunk_state)
     = Inr [\<lparr>document_id = 0, document_content = replicate 201 CHR ''a'',
             document_metadata = [(''doc_id'', PyStr ''manual''), (''chunk_index'', PyInt 0),
                                  (''total_chunks'', PyInt 1)],
             document_score = Some 0.9\<rparr>]"
    by (simp add: search_def get_qdrant_def demo_backend_def long_chunk_state_def
      Let_def bind_result_def py_index_def to_document_def make_payload_def dict_get_def)
  show ?thesis
    using query_citations[OF query_long_chunk] query_long_chunk
    by (simp add: s)
qed

end
